theory Spec2Isabelle
  imports Complex_Main "HOL-Library.List_Lexorder" "HOL-Library.Char_ord"
begin

section \<open>Retry primitive (src/utils/retry.ts)\<close>

text \<open>
  JavaScript numbers that hold durations and multipliers are modelled as \<open>real\<close>
  (rounding of IEEE doubles is not modelled); the attempt bound is a count and is
  modelled as \<open>int\<close>, so that non-positive values are expressible. Thrown values are an
  arbitrary type \<open>'e\<close>; the value \<open>undefined\<close> of an uninitialised variable is \<open>None\<close>.
\<close>





















section \<open>Calendar dates of the runtime\<close>

text \<open>
  The source obtains date strings with \<open>new Date().toISOString().split('T')[0]\<close>. An
  instant is its number of milliseconds since the epoch, and \<open>toISOString\<close> prints the
  calendar date of that instant in UTC. The date follows the definitions of the
  ECMAScript specification: \<open>Day\<close>, \<open>DayFromYear\<close>, the year as the largest one that begins
  on or before the day (found by stepping down from a year that is not too small),
  \<open>InLeapYear\<close>, and month and day of the month from the day within the year.
\<close>

definition msPerDay :: int where
  "msPerDay = 86400000"

definition Day :: "int \<Rightarrow> int" where
  "Day t = t div msPerDay"

definition DayFromYear :: "int \<Rightarrow> int" where
  "DayFromYear y =
     365 * (y - 1970) + (y - 1969) div 4 - (y - 1901) div 100 + (y - 1601) div 400"

function yearAtOrBelow :: "int \<Rightarrow> int \<Rightarrow> int" where
  "yearAtOrBelow day y = (if DayFromYear y \<le> day then y else yearAtOrBelow day (y - 1))"
  by pat_completeness auto
termination
  by (relation "measure (\<lambda>(day, y). nat (DayFromYear y - day))")
     (auto simp: DayFromYear_def)

declare yearAtOrBelow.simps [simp del]

definition YearFromDay :: "int \<Rightarrow> int" where
  "YearFromDay day = yearAtOrBelow day (1970 + max 0 (day div 365))"

definition InLeapYear :: "int \<Rightarrow> bool" where
  "InLeapYear y = ((y mod 4 = 0 \<and> y mod 100 \<noteq> 0) \<or> y mod 400 = 0)"

definition MonthFromDay :: "bool \<Rightarrow> int \<Rightarrow> int" where
  "MonthFromDay leap dwy =
     (let l = (if leap then 1 else 0) in
      if dwy < 31 then 1
      else if dwy < 59 + l then 2
      else if dwy < 90 + l then 3
      else if dwy < 120 + l then 4
      else if dwy < 151 + l then 5
      else if dwy < 181 + l then 6
      else if dwy < 212 + l then 7
      else if dwy < 243 + l then 8
      else if dwy < 273 + l then 9
      else if dwy < 304 + l then 10
      else if dwy < 334 + l then 11
      else 12)"

definition DateFromDay :: "bool \<Rightarrow> int \<Rightarrow> int" where
  "DateFromDay leap dwy =
     (let l = (if leap then 1 else 0); m = MonthFromDay leap dwy in
      if m = 1 then dwy + 1
      else if m = 2 then dwy - 30
      else if m = 3 then dwy - 58 - l
      else if m = 4 then dwy - 89 - l
      else if m = 5 then dwy - 119 - l
      else if m = 6 then dwy - 150 - l
      else if m = 7 then dwy - 180 - l
      else if m = 8 then dwy - 211 - l
      else if m = 9 then dwy - 242 - l
      else if m = 10 then dwy - 272 - l
      else if m = 11 then dwy - 303 - l
      else dwy - 333 - l)"

definition civil_from_days :: "int \<Rightarrow> int \<times> int \<times> int" where
  "civil_from_days day =
     (let y = YearFromDay day;
          dwy = day - DayFromYear y
      in (y, MonthFromDay (InLeapYear y) dwy, DateFromDay (InLeapYear y) dwy))"

text \<open>Decimal digits, padded with zeros to a fixed width.\<close>

definition digit_char :: "int \<Rightarrow> char" where
  "digit_char d = char_of (48 + nat (d mod 10))"

definition pad2 :: "int \<Rightarrow> string" where
  "pad2 n = [digit_char (n div 10), digit_char n]"

definition pad4 :: "int \<Rightarrow> string" where
  "pad4 n = [digit_char (n div 1000), digit_char (n div 100), digit_char (n div 10), digit_char n]"

definition pad6 :: "int \<Rightarrow> string" where
  "pad6 n = [digit_char (n div 100000), digit_char (n div 10000)] @ pad4 n"

text \<open>
  The date part of \<open>toISOString()\<close>: four-digit years from 0 to 9999, and the expanded
  signed six-digit year outside that range.
\<close>

definition isoDateString :: "int \<Rightarrow> string" where
  "isoDateString t =
     (case civil_from_days (Day t) of
        (y, m, d) \<Rightarrow>
          (if 0 \<le> y \<and> y \<le> 9999 then pad4 y
           else (if y < 0 then ''-'' else ''+'') @ pad6 \<bar>y\<bar>)
          @ ''-'' @ pad2 m @ ''-'' @ pad2 d)"

text \<open>The instants whose year has four digits: from 0000-01-01 to 9999-12-31 (UTC).\<close>

definition fourDigitYear :: "int \<Rightarrow> bool" where
  "fourDigitYear t = (- 62167219200000 \<le> t \<and> t < 253402300800000)"

text \<open>
  The reading of \<open>today\<close> in local time, for comparison: the calendar date shown by a
  clock that runs \<open>offsetMinutes\<close> ahead of UTC.
\<close>

definition localDateString :: "int \<Rightarrow> int \<Rightarrow> string" where
  "localDateString ms offsetMinutes = isoDateString (ms + offsetMinutes * 60000)"


section \<open>Data model (src/models/UsageMetrics.ts)\<close>

text \<open>
  Counters are JavaScript numbers holding integers; they are modelled as \<open>int\<close>. A field
  that the code reads through \<open>||\<close> with a default may be missing from the parsed JSON
  and is an \<open>option\<close>. Objects used as dictionaries are association lists in property
  order. Where two interfaces share a field name the one read from a file carries a
  prefix (\<open>sc_\<close> for the stats cache, \<open>cr_\<close> for credentials, \<open>ls_\<close> for the longest
  session).
\<close>

record QuotaUsage =
  utilization :: real
  resets_at :: "string option"

record QuotaData =
  five_hour :: "QuotaUsage option"
  seven_day :: "QuotaUsage option"
  seven_day_oauth_apps :: "QuotaUsage option"
  seven_day_opus :: "QuotaUsage option"

record ModelUsage =
  inputTokens :: "int option"
  outputTokens :: "int option"
  cacheReadInputTokens :: "int option"
  cacheCreationInputTokens :: "int option"
  webSearchRequests :: "int option"
  costUSD :: "real option"
  contextWindow :: "int option"

record Dated =
  date :: string

record DailyActivity = Dated +
  messageCount :: "int option"
  sessionCount :: "int option"
  toolCallCount :: "int option"

record DailyModelTokens = Dated +
  tokensByModel :: "(string \<times> int) list option"

record LongestSession =
  sessionId :: string
  duration :: int
  ls_messageCount :: int
  timestamp :: string

record StatsCache =
  version :: "int option"
  sc_lastComputedDate :: "string option"
  sc_dailyActivity :: "DailyActivity list option"
  sc_dailyModelTokens :: "DailyModelTokens list option"
  sc_modelUsage :: "(string \<times> ModelUsage) list option"
  sc_totalSessions :: "int option"
  sc_totalMessages :: "int option"
  sc_longestSession :: "LongestSession option"
  sc_firstSessionDate :: "string option"
  hourCounts :: "(string \<times> int) list option"

record OAuthCredentials =
  accessToken :: string
  refreshToken :: string
  expiresAt :: int
  scopes :: "string list"
  cr_subscriptionType :: string
  cr_rateLimitTier :: string

text \<open>Any other JSON value that the credentials file may hold beside \<open>claudeAiOauth\<close>.\<close>

datatype json = JNull | JBool bool | JNum real | JStr string | JArr "json list"
  | JObj "(string \<times> json) list"

text \<open>
  The parsed credentials file (\<open>Credentials\<close> in the data service, \<open>CredentialsFile\<close> in
  the API service): the property \<open>claudeAiOauth\<close>, and every other top-level property.
\<close>

record CredentialsFile =
  claudeAiOauth :: "OAuthCredentials option"
  otherFields :: "(string \<times> json) list"

record UsageMetrics =
  subscriptionType :: string
  rateLimitTier :: string
  todayTokens :: int
  todayMessages :: int
  todaySessions :: int
  todayToolCalls :: int
  modelUsage :: "(string \<times> ModelUsage) list"
  totalSessions :: int
  totalMessages :: int
  longestSession :: "LongestSession option"
  firstSessionDate :: "string option"
  lastComputedDate :: "string option"
  dailyActivity :: "DailyActivity list"
  dailyModelTokens :: "DailyModelTokens list"
  hourlyDistribution :: "(string \<times> int) list"
  totalInputTokens :: int
  totalOutputTokens :: int
  totalCacheReadTokens :: int
  totalCacheCreationTokens :: int
  quota :: "QuotaData option"
  quotaError :: "string option"
  lastUpdated :: int
  dataAvailable :: bool
  error :: "string option"

text \<open>\<open>createEmptyMetrics\<close>; the argument is the instant that \<open>new Date()\<close> reads.\<close>

definition createEmptyMetrics :: "int \<Rightarrow> UsageMetrics" where
  "createEmptyMetrics now =
     \<lparr> subscriptionType = ''unknown'', rateLimitTier = ''unknown'',
       todayTokens = 0, todayMessages = 0, todaySessions = 0, todayToolCalls = 0,
       modelUsage = [], totalSessions = 0, totalMessages = 0, longestSession = None,
       firstSessionDate = None, lastComputedDate = None, dailyActivity = [],
       dailyModelTokens = [], hourlyDistribution = [],
       totalInputTokens = 0, totalOutputTokens = 0, totalCacheReadTokens = 0,
       totalCacheCreationTokens = 0, quota = None, quotaError = None,
       lastUpdated = now, dataAvailable = False, error = None \<rparr>"

section \<open>Local data source (src/services/ClaudeDataService.ts)\<close>

text \<open>The JavaScript idioms \<open>x || 0\<close>, \<open>s || null\<close> and \<open>s || 'unknown'\<close>.\<close>

definition orZero :: "int option \<Rightarrow> int" where
  "orZero x = (case x of None \<Rightarrow> 0 | Some v \<Rightarrow> v)"

definition orNull :: "string option \<Rightarrow> string option" where
  "orNull s = (case s of None \<Rightarrow> None | Some v \<Rightarrow> if v = [] then None else Some v)"

definition orUnknown :: "string \<Rightarrow> string" where
  "orUnknown s = (if s = [] then ''unknown'' else s)"

definition objectValues :: "('k \<times> 'v) list option \<Rightarrow> 'v list" where
  "objectValues obj = (case obj of None \<Rightarrow> [] | Some kvs \<Rightarrow> map snd kvs)"

text \<open>
  What reading and parsing a JSON file gives: the file does not exist, reading or
  \<open>JSON.parse\<close> throws, or the parsed value at its declared type.
\<close>

datatype 'a file_read = Absent | Unreadable | Content 'a

text \<open>What the data service reads: the data directory, its two files, and the clock.\<close>

record DataEnv =
  dirExists :: bool
  statsFile :: "StatsCache file_read"
  credentialsFile :: "CredentialsFile file_read"
  clock :: int

definition loadStatsCache :: "DataEnv \<Rightarrow> StatsCache option" where
  "loadStatsCache env =
     (case statsFile env of Absent \<Rightarrow> None | Unreadable \<Rightarrow> None | Content c \<Rightarrow> Some c)"

definition loadCredentials :: "DataEnv \<Rightarrow> CredentialsFile option" where
  "loadCredentials env =
     (case credentialsFile env of Absent \<Rightarrow> None | Unreadable \<Rightarrow> None | Content c \<Rightarrow> Some c)"

definition getTodayDateString :: "int \<Rightarrow> string" where
  "getTodayDateString now = isoDateString now"

text \<open>The loop over \<open>Object.values(metrics.modelUsage)\<close> that adds up the totals.\<close>

definition addModelTotals :: "ModelUsage \<Rightarrow> UsageMetrics \<Rightarrow> UsageMetrics" where
  "addModelTotals usage metrics =
     metrics\<lparr> totalInputTokens := totalInputTokens metrics + orZero (inputTokens usage),
              totalOutputTokens := totalOutputTokens metrics + orZero (outputTokens usage),
              totalCacheReadTokens := totalCacheReadTokens metrics + orZero (cacheReadInputTokens usage),
              totalCacheCreationTokens :=
                totalCacheCreationTokens metrics + orZero (cacheCreationInputTokens usage) \<rparr>"

definition populateFromStatsCache :: "int \<Rightarrow> UsageMetrics \<Rightarrow> StatsCache \<Rightarrow> UsageMetrics" where
  "populateFromStatsCache now metrics0 stats =
     (let metrics = metrics0\<lparr>
            modelUsage := (case sc_modelUsage stats of None \<Rightarrow> [] | Some mu \<Rightarrow> mu),
            totalSessions := orZero (sc_totalSessions stats),
            totalMessages := orZero (sc_totalMessages stats),
            firstSessionDate := orNull (sc_firstSessionDate stats),
            lastComputedDate := orNull (sc_lastComputedDate stats),
            dailyActivity := (case sc_dailyActivity stats of None \<Rightarrow> [] | Some xs \<Rightarrow> xs),
            dailyModelTokens := (case sc_dailyModelTokens stats of None \<Rightarrow> [] | Some xs \<Rightarrow> xs),
            hourlyDistribution := (case hourCounts stats of None \<Rightarrow> [] | Some hc \<Rightarrow> hc) \<rparr>;
          metrics = (case sc_longestSession stats of
                       None \<Rightarrow> metrics
                     | Some ls \<Rightarrow> metrics\<lparr> longestSession := Some ls \<rparr>);
          metrics = fold addModelTotals (map snd (modelUsage metrics)) metrics;
          today = getTodayDateString now;
          todayActivity = (case sc_dailyActivity stats of
                             None \<Rightarrow> None
                           | Some xs \<Rightarrow> find (\<lambda>d. date d = today) xs);
          metrics = (case todayActivity of
                       None \<Rightarrow> metrics
                     | Some a \<Rightarrow> metrics\<lparr> todayMessages := orZero (messageCount a),
                                          todaySessions := orZero (sessionCount a),
                                          todayToolCalls := orZero (toolCallCount a) \<rparr>);
          todayTokensEntry = (case sc_dailyModelTokens stats of
                                None \<Rightarrow> None
                              | Some xs \<Rightarrow> find (\<lambda>d. date d = today) xs)
      in (case todayTokensEntry of
            None \<Rightarrow> metrics
          | Some t \<Rightarrow>
              metrics\<lparr> todayTokens := foldl (\<lambda>sum t. sum + t) 0 (objectValues (tokensByModel t)) \<rparr>))"

text \<open>
  \<open>loadMetrics\<close>. With files of the declared types nothing inside the \<open>try\<close> block
  throws, so the \<open>catch\<close> branch has no counterpart here.
\<close>

definition loadMetrics :: "DataEnv \<Rightarrow> UsageMetrics" where
  "loadMetrics env =
     (let metrics = createEmptyMetrics (clock env) in
      if \<not> dirExists env then
        metrics\<lparr> error := Some ''Claude data directory not found. Is Claude Code installed?'' \<rparr>
      else
        (let metrics = (case loadStatsCache env of
                          None \<Rightarrow> metrics
                        | Some statsCache \<Rightarrow> populateFromStatsCache (clock env) metrics statsCache);
             metrics = (case loadCredentials env of
                          None \<Rightarrow> metrics
                        | Some credentials \<Rightarrow>
                            (case claudeAiOauth credentials of
                               None \<Rightarrow> metrics
                             | Some oauth \<Rightarrow>
                                 metrics\<lparr> subscriptionType := orUnknown (cr_subscriptionType oauth),
                                          rateLimitTier := orUnknown (cr_rateLimitTier oauth) \<rparr>))
         in metrics\<lparr> dataAvailable := True, lastUpdated := clock env \<rparr>))"


text \<open>
  \<open>getWeeklyStats\<close>. \<open>setDate(getDate() - 7)\<close> moves the instant back by seven days
  (daylight-saving shifts of the local clock are not modelled); the two \<open>for\<close> loops are
  folds over the daily series, and \<open>>=\<close> on strings is the lexicographic order.
\<close>

definition weekAgoString :: "int \<Rightarrow> string" where
  "weekAgoString now = isoDateString (now - 7 * msPerDay)"




section \<open>Change notifier (src/services/FileWatcher.ts)\<close>

text \<open>
  Time is the number of milliseconds on the event loop's clock. A pending
  \<open>setTimeout\<close> is the instant at which it is due; \<open>fired\<close> records the instants at
  which \<open>_onFileChanged.fire()\<close> ran. The field \<open>watcher\<close> tells whether the
  \<open>fs.FSWatcher\<close> handle is open.
\<close>

record FileWatcher =
  filePath :: string
  watcher :: bool
  debounceTimer :: "int option"
  isWatching :: bool
  fired :: "int list"
  emitterDisposed :: bool

definition debounceMs :: int where
  "debounceMs = 500"

definition newFileWatcher :: "string \<Rightarrow> FileWatcher" where
  "newFileWatcher path =
     \<lparr> filePath = path, watcher = False, debounceTimer = None, isWatching = False,
       fired = [], emitterDisposed = False \<rparr>"

text \<open>\<open>path.dirname\<close> and \<open>path.basename\<close> for paths separated by \<open>/\<close>.\<close>

definition basename :: "string \<Rightarrow> string" where
  "basename p = rev (takeWhile (\<lambda>c. c \<noteq> CHR ''/'') (rev p))"

text \<open>What \<open>start\<close> finds: whether the directory exists and whether \<open>fs.watch\<close> throws.\<close>

record WatchEnv =
  watchDirExists :: bool
  watchThrows :: bool

definition fw_start :: "WatchEnv \<Rightarrow> FileWatcher \<Rightarrow> FileWatcher" where
  "fw_start env fw =
     (if isWatching fw then fw
      else if \<not> watchDirExists env then fw
      else if watchThrows env then fw
      else fw\<lparr> watcher := True, isWatching := True \<rparr>)"

definition fw_stop :: "FileWatcher \<Rightarrow> FileWatcher" where
  "fw_stop fw = fw\<lparr> watcher := False, debounceTimer := None, isWatching := False \<rparr>"

text \<open>\<open>handleFileChange\<close> at instant \<open>now\<close>: the pending timeout is cleared and a new one set.\<close>

definition handleFileChange :: "int \<Rightarrow> FileWatcher \<Rightarrow> FileWatcher" where
  "handleFileChange now fw = fw\<lparr> debounceTimer := Some (now + debounceMs) \<rparr>"

text \<open>The callback given to \<open>fs.watch\<close>; it runs only while the handle is open.\<close>

definition onWatchEvent :: "int \<Rightarrow> string option \<Rightarrow> FileWatcher \<Rightarrow> FileWatcher" where
  "onWatchEvent now changedFilename fw =
     (if \<not> watcher fw then fw
      else if changedFilename = Some (basename (filePath fw)) then handleFileChange now fw
      else fw)"

text \<open>The callback given to \<open>setTimeout\<close>, run at the instant \<open>due\<close>.\<close>

definition onDebounceTimeout :: "int \<Rightarrow> FileWatcher \<Rightarrow> FileWatcher" where
  "onDebounceTimeout due fw = fw\<lparr> fired := fired fw @ [due], debounceTimer := None \<rparr>"

definition fw_dispose :: "FileWatcher \<Rightarrow> FileWatcher" where
  "fw_dispose fw = (fw_stop fw)\<lparr> emitterDisposed := True \<rparr>"

text \<open>
  The event loop up to instant \<open>t\<close>: a pending timeout that is due by then runs. A timeout
  due at the very instant of another input runs first.
\<close>

definition elapse :: "int \<Rightarrow> FileWatcher \<Rightarrow> FileWatcher" where
  "elapse t fw =
     (case debounceTimer fw of
        None \<Rightarrow> fw
      | Some due \<Rightarrow> if due \<le> t then onDebounceTimeout due fw else fw)"

text \<open>
  What can happen to a watcher: the watch handle reports an event for a file name or an
  error (its handler calls \<open>stop()\<close>), or \<open>start()\<close>, \<open>stop()\<close> or \<open>dispose()\<close> is called.
\<close>

datatype fw_input = FsEvent "string option" | WatcherError | Start WatchEnv | Stop | Dispose

definition fw_step :: "int \<times> fw_input \<Rightarrow> FileWatcher \<Rightarrow> FileWatcher" where
  "fw_step inp fw0 =
     (case inp of (t, i) \<Rightarrow>
        (let fw = elapse t fw0 in
         case i of
           FsEvent changedFilename \<Rightarrow> onWatchEvent t changedFilename fw
         | WatcherError \<Rightarrow> (if watcher fw then fw_stop fw else fw)
         | Start env \<Rightarrow> fw_start env fw
         | Stop \<Rightarrow> fw_stop fw
         | Dispose \<Rightarrow> fw_dispose fw))"

definition fw_run :: "(int \<times> fw_input) list \<Rightarrow> FileWatcher \<Rightarrow> FileWatcher" where
  "fw_run inputs fw = fold fw_step inputs fw"

text \<open>
  A burst, in the words of the contract: instants in order, each less than one debounce
  window after the one before.
\<close>

fun burst :: "int list \<Rightarrow> bool" where
  "burst [] = True"
| "burst [t] = True"
| "burst (t # u # ts) = (t \<le> u \<and> u - t < debounceMs \<and> burst (u # ts))"

definition changesAt :: "FileWatcher \<Rightarrow> int list \<Rightarrow> (int \<times> fw_input) list" where
  "changesAt fw ts = map (\<lambda>t. (t, FsEvent (Some (basename (filePath fw))))) ts"

fun isStart :: "int \<times> fw_input \<Rightarrow> bool" where
  "isStart (t, Start env) = True"
| "isStart (t, i) = False"

section \<open>Remote quota source (src/services/ClaudeAPIService.ts)\<close>

record QuotaResult =
  success :: bool
  data :: "QuotaData option"
  qr_error :: "string option"



























section \<open>Refresh orchestrator (src/services/RefreshManager.ts)\<close>




























section \<open>The snapshot invariant of the data model, as the specification words it\<close>









section \<open>Sample data for the closed instances\<close>

definition ex_now :: int where
  "ex_now = 1704888000000"

definition ex_day :: "string \<Rightarrow> int \<Rightarrow> DailyActivity" where
  "ex_day d n = \<lparr> date = d, messageCount = Some n, sessionCount = Some 1, toolCallCount = Some 2 \<rparr>"

definition ex_day_tokens :: "string \<Rightarrow> int \<Rightarrow> DailyModelTokens" where
  "ex_day_tokens d n = \<lparr> date = d, tokensByModel = Some [(''claude-opus'', n), (''claude-sonnet'', 5)] \<rparr>"



definition ex_stats :: "DailyActivity list \<Rightarrow> DailyModelTokens list \<Rightarrow> StatsCache" where
  "ex_stats acts toks =
     \<lparr> version = Some 1, sc_lastComputedDate = Some ''2024-01-10'',
       sc_dailyActivity = Some acts, sc_dailyModelTokens = Some toks,
       sc_modelUsage = Some [(''claude-opus'',
          \<lparr> inputTokens = Some 100, outputTokens = Some 20, cacheReadInputTokens = Some 3,
            cacheCreationInputTokens = None, webSearchRequests = None, costUSD = None,
            contextWindow = None \<rparr>)],
       sc_totalSessions = Some 9, sc_totalMessages = Some 77, sc_longestSession = None,
       sc_firstSessionDate = Some ''2023-12-01'', hourCounts = None \<rparr>"

definition ex_env :: "int \<Rightarrow> DailyActivity list \<Rightarrow> DailyModelTokens list \<Rightarrow> DataEnv" where
  "ex_env now acts toks =
     \<lparr> dirExists = True, statsFile = Content (ex_stats acts toks), credentialsFile = Absent,
       clock = now \<rparr>"


text \<open>Half past midnight UTC on 2024-01-11: 19:30 on 2024-01-10 for a clock five hours behind.\<close>

definition ex_late :: int where
  "ex_late = 1704933000000"





definition ex_watch_env :: WatchEnv where
  "ex_watch_env = \<lparr> watchDirExists = True, watchThrows = False \<rparr>"

definition ex_watcher :: FileWatcher where
  "ex_watcher = fw_start ex_watch_env (newFileWatcher ''/home/u/.claude/stats-cache.json'')"









section \<open>Properties\<close>

subsection \<open>The retry primitive\<close>













subsection \<open>Calendar dates: the order of date strings is the order of days\<close>

lemma div_succ:
  fixes a n :: int
  assumes "1 < n"
  shows "(a + 1) div n = a div n + (if (a + 1) mod n = 0 then 1 else 0)"
proof -
  have r: "0 \<le> a mod n" "a mod n < n" using assms by simp_all
  have e: "a + 1 = n * (a div n) + (a mod n + 1)" by simp
  show ?thesis
  proof (cases "a mod n + 1 = n")
    case True
    then have "a + 1 = n * (a div n + 1) + 0" using e by (simp add: algebra_simps)
    then have "(a + 1) div n = a div n + 1 \<and> (a + 1) mod n = 0"
      using assms by (metis add.right_neutral dvd_triv_left mod_0_imp_dvd dvd_imp_mod_0
          nonzero_mult_div_cancel_left not_one_less_zero)
    then show ?thesis by simp
  next
    case False
    then have lt: "a mod n + 1 < n" using r by simp
    have "(a + 1) div n = a div n"
      using e lt r by (metis add.commute add_nonneg_nonneg int_div_pos_eq mult.commute zero_le_one)
    moreover have "(a + 1) mod n = a mod n + 1"
      using e lt r by (metis add.commute add_nonneg_nonneg int_mod_pos_eq mult.commute zero_le_one)
    ultimately show ?thesis using r by simp
  qed
qed

lemma leap_shift:
  "((y - 1968) mod 4 = 0) = (y mod 4 = 0)"
  "((y - 1900) mod 100 = 0) = (y mod 100 = 0)"
  "((y - 1600) mod 400 = 0) = (y mod 400 = 0)" for y :: int
proof -
  have "(y - 1968) mod 4 = (y + (- 492) * 4) mod 4" by simp
  then show "((y - 1968) mod 4 = 0) = (y mod 4 = 0)" by (simp only: mod_mult_self1)
  have "(y - 1900) mod 100 = (y + (- 19) * 100) mod 100" by simp
  then show "((y - 1900) mod 100 = 0) = (y mod 100 = 0)" by (simp only: mod_mult_self1)
  have "(y - 1600) mod 400 = (y + (- 4) * 400) mod 400" by simp
  then show "((y - 1600) mod 400 = 0) = (y mod 400 = 0)" by (simp only: mod_mult_self1)
qed

lemma leap_divides: "y mod 400 = 0 \<Longrightarrow> y mod 100 = 0" "y mod 100 = 0 \<Longrightarrow> y mod 4 = 0" for y :: int
proof -
  have a: "(100 :: int) dvd 400" and b: "(4 :: int) dvd 100" by simp_all
  show "y mod 400 = 0 \<Longrightarrow> y mod 100 = 0"
    using a by (meson dvd_trans mod_0_imp_dvd dvd_imp_mod_0)
  show "y mod 100 = 0 \<Longrightarrow> y mod 4 = 0"
    using b by (meson dvd_trans mod_0_imp_dvd dvd_imp_mod_0)
qed

lemma below_next_multiple: "day < 365 * (day div 365 + 1)" for day :: int
proof -
  define q where "q = day div 365"
  define r where "r = day mod 365"
  have "r < 365" by (simp add: r_def)
  moreover have "day = 365 * q + r" by (simp add: q_def r_def)
  ultimately have "day < 365 * (q + 1)" by (simp add: algebra_simps)
  then show ?thesis by (simp add: q_def)
qed

lemma DayFromYear_Suc:
  "DayFromYear (y + 1) = DayFromYear y + (if InLeapYear y then 366 else 365)"
proof -
  have a: "(y + 1 - 1969) div 4 = (y - 1969) div 4 + (if y mod 4 = 0 then 1 else 0)"
    using div_succ [of 4 "y - 1969"] leap_shift(1) [of y] by (simp add: algebra_simps)
  have b: "(y + 1 - 1901) div 100 = (y - 1901) div 100 + (if y mod 100 = 0 then 1 else 0)"
    using div_succ [of 100 "y - 1901"] leap_shift(2) [of y] by (simp add: algebra_simps)
  have c: "(y + 1 - 1601) div 400 = (y - 1601) div 400 + (if y mod 400 = 0 then 1 else 0)"
    using div_succ [of 400 "y - 1601"] leap_shift(3) [of y] by (simp add: algebra_simps)
  show ?thesis
    unfolding DayFromYear_def InLeapYear_def a b c using leap_divides [of y] by auto
qed

lemma DayFromYear_step: "DayFromYear y + 365 \<le> DayFromYear (y + 1)"
  by (simp add: DayFromYear_Suc)

lemma DayFromYear_add: "DayFromYear y + 365 * int n \<le> DayFromYear (y + int n)"
proof (induction n)
  case 0
  then show ?case by simp
next
  case (Suc n)
  have "DayFromYear (y + int n) + 365 \<le> DayFromYear (y + int n + 1)" by (rule DayFromYear_step)
  then show ?case using Suc by (simp add: algebra_simps)
qed

lemma DayFromYear_less: "y1 < y2 \<Longrightarrow> DayFromYear y1 < DayFromYear y2"
proof -
  assume "y1 < y2"
  then obtain n where n: "y2 = y1 + int (Suc n)"
    by (metis zless_iff_Suc_zadd)
  show ?thesis using DayFromYear_add [of y1 "Suc n"] by (simp add: n)
qed

lemma DayFromYear_mono: "y1 \<le> y2 \<Longrightarrow> DayFromYear y1 \<le> DayFromYear y2"
  using DayFromYear_less [of y1 y2] by (cases "y1 = y2") auto

lemma DayFromYear_1970: "DayFromYear 1970 = 0"
  by (simp add: DayFromYear_def)

lemma year_start: "day < DayFromYear (1970 + max 0 (day div 365) + 1)"
proof (cases "0 \<le> day")
  case True
  then have q: "0 \<le> day div 365" by simp
  have "365 * int (nat (day div 365 + 1)) \<le> DayFromYear (1970 + int (nat (day div 365 + 1)))"
    using DayFromYear_add [of 1970 "nat (day div 365 + 1)"] by (simp add: DayFromYear_1970)
  then have "365 * (day div 365 + 1) \<le> DayFromYear (1970 + (day div 365) + 1)"
    using q by (simp add: algebra_simps)
  moreover have "day < 365 * (day div 365 + 1)"
    by (rule below_next_multiple)
  ultimately show ?thesis using q by (simp add: max_def)
next
  case False
  have "DayFromYear 1970 + 365 \<le> DayFromYear (1970 + 1)" by (rule DayFromYear_step)
  then show ?thesis using False by (simp add: DayFromYear_1970 max_def)
qed

lemma yearAtOrBelow_bounds:
  "day < DayFromYear (y + 1) \<Longrightarrow>
     DayFromYear (yearAtOrBelow day y) \<le> day \<and> day < DayFromYear (yearAtOrBelow day y + 1)"
proof (induction day y rule: yearAtOrBelow.induct)
  case (1 day y)
  show ?case
  proof (cases "DayFromYear y \<le> day")
    case True
    then show ?thesis using "1.prems" by (subst (1 2) yearAtOrBelow.simps) simp
  next
    case False
    then have "DayFromYear (yearAtOrBelow day (y - 1)) \<le> day
        \<and> day < DayFromYear (yearAtOrBelow day (y - 1) + 1)"
      using "1.IH" by simp
    then show ?thesis using False by (subst (1 2) yearAtOrBelow.simps) simp
  qed
qed

lemma YearFromDay_bounds:
  "DayFromYear (YearFromDay day) \<le> day" "day < DayFromYear (YearFromDay day + 1)"
  using yearAtOrBelow_bounds [OF year_start, of day] by (simp_all add: YearFromDay_def)

lemma YearFromDay_unique:
  assumes "DayFromYear y \<le> day" and "day < DayFromYear (y + 1)"
  shows "YearFromDay day = y"
proof (rule antisym)
  show "YearFromDay day \<le> y"
  proof (rule ccontr)
    assume "\<not> YearFromDay day \<le> y"
    then have "y + 1 \<le> YearFromDay day" by simp
    then have "DayFromYear (y + 1) \<le> DayFromYear (YearFromDay day)" by (rule DayFromYear_mono)
    then show False using assms(2) YearFromDay_bounds(1) [of day] by simp
  qed
  show "y \<le> YearFromDay day"
  proof (rule ccontr)
    assume "\<not> y \<le> YearFromDay day"
    then have "YearFromDay day + 1 \<le> y" by simp
    then have "DayFromYear (YearFromDay day + 1) \<le> DayFromYear y" by (rule DayFromYear_mono)
    then show False using assms(1) YearFromDay_bounds(2) [of day] by simp
  qed
qed

lemma YearFromDay_mono: "d1 \<le> d2 \<Longrightarrow> YearFromDay d1 \<le> YearFromDay d2"
proof (rule ccontr)
  assume le: "d1 \<le> d2" and "\<not> YearFromDay d1 \<le> YearFromDay d2"
  then have "YearFromDay d2 + 1 \<le> YearFromDay d1" by simp
  then have "DayFromYear (YearFromDay d2 + 1) \<le> DayFromYear (YearFromDay d1)"
    by (rule DayFromYear_mono)
  then show False using YearFromDay_bounds(2) [of d2] YearFromDay_bounds(1) [of d1] le by simp
qed

lemma dayWithinYear_range:
  "0 \<le> day - DayFromYear (YearFromDay day)"
  "day - DayFromYear (YearFromDay day) < (if InLeapYear (YearFromDay day) then 366 else 365)"
  using YearFromDay_bounds [of day] DayFromYear_Suc [of "YearFromDay day"]
  by (simp_all split: if_splits)

lemma MonthFromDay_range:
  "1 \<le> MonthFromDay leap dwy" "MonthFromDay leap dwy \<le> 12"
  by (simp_all add: MonthFromDay_def Let_def)

lemma DateFromDay_range:
  assumes "0 \<le> dwy" and "dwy < (if leap then 366 else 365)"
  shows "1 \<le> DateFromDay leap dwy" "DateFromDay leap dwy \<le> 31"
  using assms by (auto simp: DateFromDay_def MonthFromDay_def Let_def split: if_splits)

lemma MonthFromDay_mono: "a \<le> b \<Longrightarrow> MonthFromDay leap a \<le> MonthFromDay leap b"
  by (auto simp: MonthFromDay_def Let_def split: if_splits)

lemma DateFromDay_less:
  "a < b \<Longrightarrow> MonthFromDay leap a = MonthFromDay leap b
     \<Longrightarrow> DateFromDay leap a < DateFromDay leap b"
  by (auto simp: DateFromDay_def Let_def split: if_splits)

lemma of_char_digit: "(of_char (digit_char d) :: nat) = 48 + nat (d mod 10)"
proof -
  have "nat (d mod 10) < 10" by simp
  then have "(48 + nat (d mod 10)) mod 256 = 48 + nat (d mod 10)" by simp
  then show ?thesis by (simp add: digit_char_def)
qed

lemma digit_char_less: "digit_char a < digit_char b \<longleftrightarrow> a mod 10 < b mod 10"
proof -
  have "0 \<le> a mod 10" "0 \<le> b mod 10" by simp_all
  then have "nat (a mod 10) < nat (b mod 10) \<longleftrightarrow> a mod 10 < b mod 10" by linarith
  then show ?thesis by (simp add: less_char_def of_char_digit)
qed

lemma digit_char_eq: "digit_char a = digit_char b \<longleftrightarrow> a mod 10 = b mod 10"
proof -
  have "digit_char a = digit_char b \<longleftrightarrow> (of_char (digit_char a) :: nat) = of_char (digit_char b)"
    by simp
  moreover have "0 \<le> a mod 10" "0 \<le> b mod 10" by simp_all
  then have "nat (a mod 10) = nat (b mod 10) \<longleftrightarrow> a mod 10 = b mod 10" by linarith
  ultimately show ?thesis by (simp add: of_char_digit)
qed

lemma lex10:
  "a < b \<longleftrightarrow> a div 10 < b div 10 \<or> (a div 10 = b div 10 \<and> a mod 10 < b mod 10)" for a b :: int
proof -
  define qa ra qb rb where "qa = a div 10" and "ra = a mod 10" and "qb = b div 10" and "rb = b mod 10"
  have "a = 10 * qa + ra" "b = 10 * qb + rb" "0 \<le> ra" "ra < 10" "0 \<le> rb" "rb < 10"
    by (simp_all add: qa_def ra_def qb_def rb_def)
  then have "a < b \<longleftrightarrow> qa < qb \<or> (qa = qb \<and> ra < rb)" by auto
  then show ?thesis by (simp add: qa_def ra_def qb_def rb_def)
qed

lemma eq10: "a = b \<longleftrightarrow> a div 10 = b div 10 \<and> a mod 10 = b mod 10" for a b :: int
  by (metis mult_div_mod_eq)

lemma small_mod: "0 \<le> a \<Longrightarrow> a < 10 \<Longrightarrow> a mod 10 = a" for a :: int
  by simp

lemma pad2_less:
  assumes "0 \<le> a" "a \<le> 99" "0 \<le> b" "b \<le> 99"
  shows "pad2 a < pad2 b \<longleftrightarrow> a < b" and "pad2 a = pad2 b \<longleftrightarrow> a = b"
proof -
  have da: "0 \<le> a div 10" "a div 10 < 10" and db: "0 \<le> b div 10" "b div 10 < 10"
    using assms by simp_all
  show "pad2 a < pad2 b \<longleftrightarrow> a < b"
    using lex10 [of a b] da db by (simp add: pad2_def digit_char_less digit_char_eq)
  show "pad2 a = pad2 b \<longleftrightarrow> a = b"
    using eq10 [of a b] da db by (simp add: pad2_def digit_char_eq)
qed

lemma append_less_same_length:
  "length a = length b \<Longrightarrow> (a @ x < b @ y) = (a < b \<or> a = b \<and> x < y)"
  for a b x y :: string
  by (induction a b rule: list_induct2) auto

lemma lex100:
  "a < b \<longleftrightarrow> a div 100 < b div 100 \<or> (a div 100 = b div 100 \<and> a mod 100 < b mod 100)"
  for a b :: int
proof -
  define qa ra qb rb where "qa = a div 100" and "ra = a mod 100" and "qb = b div 100"
    and "rb = b mod 100"
  have "a = 100 * qa + ra" "b = 100 * qb + rb" "0 \<le> ra" "ra < 100" "0 \<le> rb" "rb < 100"
    by (simp_all add: qa_def ra_def qb_def rb_def)
  then have "a < b \<longleftrightarrow> qa < qb \<or> (qa = qb \<and> ra < rb)" by auto
  then show ?thesis by (simp add: qa_def ra_def qb_def rb_def)
qed

lemma eq100: "a = b \<longleftrightarrow> a div 100 = b div 100 \<and> a mod 100 = b mod 100" for a b :: int
  by (metis mult_div_mod_eq)

lemma pad4_split: "pad4 a = pad2 (a div 100) @ pad2 (a mod 100)"
proof -
  have h1: "a div 100 div 10 = a div 1000"
    using zdiv_zmult2_eq [of 10 a 100] by simp
  have m: "a mod 100 = 10 * (a div 10 mod 10) + a mod 10"
    using zmod_zmult2_eq [of 10 a 10] by simp
  have "(10 * (a div 10 mod 10) + a mod 10) div 10 = a div 10 mod 10"
    by simp
  then have "a mod 100 div 10 = a div 10 mod 10"
    by (simp only: m)
  then have h2: "(a mod 100 div 10) mod 10 = (a div 10) mod 10"
    by (simp only: mod_mod_trivial)
  have h3: "(a mod 100) mod 10 = a mod 10"
    by (simp add: mod_mod_cancel)
  have e1: "digit_char (a div 100 div 10) = digit_char (a div 1000)"
    by (simp only: h1)
  have e2: "digit_char (a mod 100 div 10) = digit_char (a div 10)"
    by (simp only: digit_char_eq h2)
  have e3: "digit_char (a mod 100) = digit_char a"
    by (simp only: digit_char_eq h3)
  show ?thesis
    unfolding pad4_def pad2_def e1 e2 e3 by (simp only: append.simps)
qed

lemma pad4_less:
  assumes "0 \<le> a" "a \<le> 9999" "0 \<le> b" "b \<le> 9999"
  shows "pad4 a < pad4 b \<longleftrightarrow> a < b" and "pad4 a = pad4 b \<longleftrightarrow> a = b"
proof -
  have ra: "0 \<le> a div 100" "a div 100 \<le> 99" "0 \<le> a mod 100" "a mod 100 \<le> 99"
    and rb: "0 \<le> b div 100" "b div 100 \<le> 99" "0 \<le> b mod 100" "b mod 100 \<le> 99"
    using assms by simp_all
  have l: "length (pad2 (a div 100)) = length (pad2 (b div 100))" by (simp add: pad2_def)
  show "pad4 a < pad4 b \<longleftrightarrow> a < b"
    using pad2_less [OF ra(1,2) rb(1,2)] pad2_less [OF ra(3,4) rb(3,4)] lex100 [of a b]
    by (simp add: pad4_split append_less_same_length [OF l])
  show "pad4 a = pad4 b \<longleftrightarrow> a = b"
    using pad2_less(2) [OF ra(1,2) rb(1,2)] pad2_less(2) [OF ra(3,4) rb(3,4)] eq100 [of a b] l
    by (simp add: pad4_split)
qed

lemma isoDate_less:
  assumes "0 \<le> y1" "y1 \<le> 9999" "0 \<le> y2" "y2 \<le> 9999"
    and "0 \<le> m1" "m1 \<le> 99" "0 \<le> m2" "m2 \<le> 99"
    and "0 \<le> d1" "d1 \<le> 99" "0 \<le> d2" "d2 \<le> 99"
  shows "(pad4 y1 @ ''-'' @ pad2 m1 @ ''-'' @ pad2 d1 < pad4 y2 @ ''-'' @ pad2 m2 @ ''-'' @ pad2 d2)
       = (y1 < y2 \<or> y1 = y2 \<and> (m1 < m2 \<or> m1 = m2 \<and> d1 < d2))"
proof -
  have l4: "length (pad4 y1) = length (pad4 y2)" by (simp add: pad4_def)
  have l2: "length (pad2 m1) = length (pad2 m2)" by (simp add: pad2_def)
  have "(pad4 y1 @ ''-'' @ pad2 m1 @ ''-'' @ pad2 d1 < pad4 y2 @ ''-'' @ pad2 m2 @ ''-'' @ pad2 d2)
      = (pad4 y1 < pad4 y2 \<or> pad4 y1 = pad4 y2
           \<and> (pad2 m1 < pad2 m2 \<or> pad2 m1 = pad2 m2 \<and> pad2 d1 < pad2 d2))"
    by (simp add: append_less_same_length [OF l4] append_less_same_length [OF l2])
  then show ?thesis
    using pad4_less [OF assms(1-4)] pad2_less [OF assms(5-8)] pad2_less [OF assms(9-12)]
    by simp
qed

lemma DayFromYear_ends: "DayFromYear 0 = - 719528" "DayFromYear 10000 = 2932897"
  by (simp_all add: DayFromYear_def)

lemma fourDigitYear_Day:
  assumes "fourDigitYear t"
  shows "DayFromYear 0 \<le> Day t" and "Day t < DayFromYear 10000"
proof -
  have "- 62167219200000 div msPerDay \<le> t div msPerDay"
    using assms by (intro zdiv_mono1) (simp_all add: fourDigitYear_def msPerDay_def)
  then show "DayFromYear 0 \<le> Day t"
    by (simp add: DayFromYear_ends Day_def msPerDay_def)
  have "t div msPerDay \<le> 253402300799999 div msPerDay"
    using assms by (intro zdiv_mono1) (simp_all add: fourDigitYear_def msPerDay_def)
  then show "Day t < DayFromYear 10000"
    by (simp add: DayFromYear_ends Day_def msPerDay_def)
qed

lemma YearFromDay_range:
  assumes "DayFromYear 0 \<le> day" and "day < DayFromYear 10000"
  shows "0 \<le> YearFromDay day" and "YearFromDay day \<le> 9999"
proof -
  show "0 \<le> YearFromDay day"
  proof (rule ccontr)
    assume "\<not> 0 \<le> YearFromDay day"
    then have "YearFromDay day + 1 \<le> 0" by simp
    then have "DayFromYear (YearFromDay day + 1) \<le> DayFromYear 0" by (rule DayFromYear_mono)
    then show False using assms(1) YearFromDay_bounds(2) [of day] by simp
  qed
  show "YearFromDay day \<le> 9999"
  proof (rule ccontr)
    assume "\<not> YearFromDay day \<le> 9999"
    then have "10000 \<le> YearFromDay day" by simp
    then have "DayFromYear 10000 \<le> DayFromYear (YearFromDay day)" by (rule DayFromYear_mono)
    then show False using assms(2) YearFromDay_bounds(1) [of day] by simp
  qed
qed

lemma isoDateString_four_digit:
  assumes "fourDigitYear t"
  shows "isoDateString t =
     pad4 (YearFromDay (Day t)) @ ''-''
       @ pad2 (MonthFromDay (InLeapYear (YearFromDay (Day t))) (Day t - DayFromYear (YearFromDay (Day t))))
       @ ''-''
       @ pad2 (DateFromDay (InLeapYear (YearFromDay (Day t))) (Day t - DayFromYear (YearFromDay (Day t))))"
  using YearFromDay_range [OF fourDigitYear_Day [OF assms]]
  by (simp add: isoDateString_def civil_from_days_def Let_def)

lemma isoDateString_less:
  assumes "fourDigitYear t1" and "fourDigitYear t2" and "Day t1 < Day t2"
  shows "isoDateString t1 < isoDateString t2"
proof -
  let ?y1 = "YearFromDay (Day t1)" and ?y2 = "YearFromDay (Day t2)"
  let ?w1 = "Day t1 - DayFromYear ?y1" and ?w2 = "Day t2 - DayFromYear ?y2"
  let ?m1 = "MonthFromDay (InLeapYear ?y1) ?w1" and ?m2 = "MonthFromDay (InLeapYear ?y2) ?w2"
  let ?d1 = "DateFromDay (InLeapYear ?y1) ?w1" and ?d2 = "DateFromDay (InLeapYear ?y2) ?w2"
  note y1 = YearFromDay_range [OF fourDigitYear_Day [OF assms(1)]]
  note y2 = YearFromDay_range [OF fourDigitYear_Day [OF assms(2)]]
  have m1: "0 \<le> ?m1" "?m1 \<le> 99" and m2: "0 \<le> ?m2" "?m2 \<le> 99"
    using MonthFromDay_range [of "InLeapYear ?y1" ?w1] MonthFromDay_range [of "InLeapYear ?y2" ?w2]
    by simp_all
  have d1: "0 \<le> ?d1" "?d1 \<le> 99"
    using DateFromDay_range [OF dayWithinYear_range [of "Day t1"]] by simp_all
  have d2: "0 \<le> ?d2" "?d2 \<le> 99"
    using DateFromDay_range [OF dayWithinYear_range [of "Day t2"]] by simp_all
  have yy: "?y1 \<le> ?y2" using assms(3) by (intro YearFromDay_mono) simp
  have key: "?y1 < ?y2 \<or> ?y1 = ?y2 \<and> (?m1 < ?m2 \<or> ?m1 = ?m2 \<and> ?d1 < ?d2)"
  proof (cases "?y1 = ?y2")
    case False
    then show ?thesis using yy by simp
  next
    case True
    then have w: "?w1 < ?w2" using assms(3) by simp
    have mm: "?m1 \<le> ?m2" using w True MonthFromDay_mono [of ?w1 ?w2 "InLeapYear ?y1"] by simp
    show ?thesis
    proof (cases "?m1 = ?m2")
      case False
      then show ?thesis using mm True by simp
    next
      case m: True
      have "?d1 < ?d2" using DateFromDay_less [of ?w1 ?w2 "InLeapYear ?y1"] w m True by simp
      then show ?thesis using True m by simp
    qed
  qed
  show ?thesis
    unfolding isoDateString_four_digit [OF assms(1)] isoDateString_four_digit [OF assms(2)]
    using isoDate_less [OF y1 y2 m1 m2 d1 d2] key by simp
qed

lemma isoDateString_same_day: "Day t1 = Day t2 \<Longrightarrow> isoDateString t1 = isoDateString t2"
  by (simp add: isoDateString_def)

lemma isoDateString_le_iff:
  assumes "fourDigitYear t1" and "fourDigitYear t2"
  shows "isoDateString t1 \<le> isoDateString t2 \<longleftrightarrow> Day t1 \<le> Day t2"
proof
  assume le: "isoDateString t1 \<le> isoDateString t2"
  show "Day t1 \<le> Day t2"
  proof (rule ccontr)
    assume "\<not> Day t1 \<le> Day t2"
    then have "Day t2 < Day t1" by simp
    then have "isoDateString t2 < isoDateString t1"
      by (rule isoDateString_less [OF assms(2,1)])
    then show False using leD [OF le] by blast
  qed
next
  assume "Day t1 \<le> Day t2"
  then consider "Day t1 = Day t2" | "Day t1 < Day t2" by linarith
  then show "isoDateString t1 \<le> isoDateString t2"
  proof cases
    case 1
    then have "isoDateString t1 = isoDateString t2" by (rule isoDateString_same_day)
    then show ?thesis by (simp only: order_refl)
  next
    case 2
    then have "isoDateString t1 < isoDateString t2" by (rule isoDateString_less [OF assms])
    then show ?thesis by (rule less_imp_le)
  qed
qed

subsection \<open>The local data source\<close>

lemma foldl_add_sum_list: "foldl (\<lambda>sum t. sum + t) a xs = a + sum_list (xs :: int list)"
  by (induction xs arbitrary: a) simp_all




lemma ex_now_dates:
  "isoDateString ex_now = ''2024-01-10''" "weekAgoString ex_now = ''2024-01-03''"
  "isoDateString (ex_now - 6 * msPerDay) = ''2024-01-04''"
  by code_simp+


lemma find_first:
  "xs = pre @ a # post \<Longrightarrow> \<forall>b\<in>set pre. date b \<noteq> today \<Longrightarrow> date a = today
     \<Longrightarrow> find (\<lambda>d. date d = today) xs = Some a"
  by (induction pre arbitrary: xs) auto

lemma find_none: "\<forall>b\<in>set xs. date b \<noteq> today \<Longrightarrow> find (\<lambda>d. date d = today) xs = None"
  by (induction xs) auto

lemma fold_addModelTotals_today:
  "todayMessages (fold addModelTotals us m) = todayMessages m"
  "todaySessions (fold addModelTotals us m) = todaySessions m"
  "todayToolCalls (fold addModelTotals us m) = todayToolCalls m"
  "todayTokens (fold addModelTotals us m) = todayTokens m"
  by (induction us arbitrary: m) (simp_all add: addModelTotals_def)

lemma populate_today_activity:
  "todayMessages (populateFromStatsCache now (createEmptyMetrics t) stats) =
     (case (case sc_dailyActivity stats of None \<Rightarrow> None
            | Some xs \<Rightarrow> find (\<lambda>d. date d = isoDateString now) xs) of
        None \<Rightarrow> 0 | Some a \<Rightarrow> orZero (messageCount a))"
  "todaySessions (populateFromStatsCache now (createEmptyMetrics t) stats) =
     (case (case sc_dailyActivity stats of None \<Rightarrow> None
            | Some xs \<Rightarrow> find (\<lambda>d. date d = isoDateString now) xs) of
        None \<Rightarrow> 0 | Some a \<Rightarrow> orZero (sessionCount a))"
  "todayToolCalls (populateFromStatsCache now (createEmptyMetrics t) stats) =
     (case (case sc_dailyActivity stats of None \<Rightarrow> None
            | Some xs \<Rightarrow> find (\<lambda>d. date d = isoDateString now) xs) of
        None \<Rightarrow> 0 | Some a \<Rightarrow> orZero (toolCallCount a))"
  "todayTokens (populateFromStatsCache now (createEmptyMetrics t) stats) =
     (case (case sc_dailyModelTokens stats of None \<Rightarrow> None
            | Some xs \<Rightarrow> find (\<lambda>d. date d = isoDateString now) xs) of
        None \<Rightarrow> 0 | Some e \<Rightarrow> sum_list (objectValues (tokensByModel e)))"
  by (simp_all add: populateFromStatsCache_def Let_def getTodayDateString_def
      fold_addModelTotals_today createEmptyMetrics_def foldl_add_sum_list
      split: option.splits)

lemma loadMetrics_today:
  assumes "dirExists env" and "statsFile env = Content stats"
  shows "todayMessages (loadMetrics env) = todayMessages (populateFromStatsCache (clock env) (createEmptyMetrics (clock env)) stats)"
    and "todaySessions (loadMetrics env) = todaySessions (populateFromStatsCache (clock env) (createEmptyMetrics (clock env)) stats)"
    and "todayToolCalls (loadMetrics env) = todayToolCalls (populateFromStatsCache (clock env) (createEmptyMetrics (clock env)) stats)"
    and "todayTokens (loadMetrics env) = todayTokens (populateFromStatsCache (clock env) (createEmptyMetrics (clock env)) stats)"
  using assms
  by (simp_all add: loadMetrics_def Let_def loadStatsCache_def split: option.splits)

text \<open>
  Claim C5, as amended: \<open>today\<close> is the calendar date of the clock in UTC. With the
  data directory and a stats cache present, the counters of today are those of the first
  entry of the daily-activity series whose date string equals that date, and the tokens
  of today are the sum over the models of the first such entry of the daily-token series;
  when no entry of a series has that date, the counters fed from it stay zero.
\<close>

theorem loadMetrics_today_counters:
  assumes "dirExists env" and "statsFile env = Content stats"
    and "sc_dailyActivity stats = Some acts" and "sc_dailyModelTokens stats = Some toks"
    and "today = isoDateString (clock env)"
  shows "(\<forall>pre a post. acts = pre @ a # post \<and> date a = today \<and> (\<forall>b\<in>set pre. date b \<noteq> today)
            \<longrightarrow> todayMessages (loadMetrics env) = orZero (messageCount a)
              \<and> todaySessions (loadMetrics env) = orZero (sessionCount a)
              \<and> todayToolCalls (loadMetrics env) = orZero (toolCallCount a))
       \<and> ((\<forall>b\<in>set acts. date b \<noteq> today)
            \<longrightarrow> todayMessages (loadMetrics env) = 0 \<and> todaySessions (loadMetrics env) = 0
              \<and> todayToolCalls (loadMetrics env) = 0)
       \<and> (\<forall>pre e post. toks = pre @ e # post \<and> date e = today \<and> (\<forall>b\<in>set pre. date b \<noteq> today)
            \<longrightarrow> todayTokens (loadMetrics env) = sum_list (objectValues (tokensByModel e)))
       \<and> ((\<forall>b\<in>set toks. date b \<noteq> today) \<longrightarrow> todayTokens (loadMetrics env) = 0)"
proof (intro conjI allI impI)
  fix pre a post
  assume h: "acts = pre @ a # post \<and> date a = today \<and> (\<forall>b\<in>set pre. date b \<noteq> today)"
  then have f: "find (\<lambda>d. date d = isoDateString (clock env)) acts = Some a"
    using find_first [of acts pre a post today] assms(5) by simp
  show "todayMessages (loadMetrics env) = orZero (messageCount a)"
    using f assms(1-3) by (simp add: loadMetrics_today populate_today_activity)
  show "todaySessions (loadMetrics env) = orZero (sessionCount a)"
    using f assms(1-3) by (simp add: loadMetrics_today populate_today_activity)
  show "todayToolCalls (loadMetrics env) = orZero (toolCallCount a)"
    using f assms(1-3) by (simp add: loadMetrics_today populate_today_activity)
next
  assume "\<forall>b\<in>set acts. date b \<noteq> today"
  then have f: "find (\<lambda>d. date d = isoDateString (clock env)) acts = None"
    using find_none [of acts today] assms(5) by simp
  show "todayMessages (loadMetrics env) = 0"
    using f assms(1-3) by (simp add: loadMetrics_today populate_today_activity)
  show "todaySessions (loadMetrics env) = 0"
    using f assms(1-3) by (simp add: loadMetrics_today populate_today_activity)
  show "todayToolCalls (loadMetrics env) = 0"
    using f assms(1-3) by (simp add: loadMetrics_today populate_today_activity)
next
  fix pre e post
  assume h: "toks = pre @ e # post \<and> date e = today \<and> (\<forall>b\<in>set pre. date b \<noteq> today)"
  then have f: "find (\<lambda>d. date d = isoDateString (clock env)) toks = Some e"
    using find_first [of toks pre e post today] assms(5) by simp
  show "todayTokens (loadMetrics env) = sum_list (objectValues (tokensByModel e))"
    using f assms(1,2,4) by (simp add: loadMetrics_today populate_today_activity)
next
  assume "\<forall>b\<in>set toks. date b \<noteq> today"
  then have f: "find (\<lambda>d. date d = isoDateString (clock env)) toks = None"
    using find_none [of toks today] assms(5) by simp
  show "todayTokens (loadMetrics env) = 0"
    using f assms(1,2,4) by (simp add: loadMetrics_today populate_today_activity)
qed

lemma ex_late_dates:
  "isoDateString ex_late = ''2024-01-11''" "localDateString ex_late (- 300) = ''2024-01-10''"
  by code_simp+

text \<open>
  The instance of the specification: an activity entry dated today with 42 messages and
  no token entry dated today give \<open>todayMessages = 42\<close> and \<open>todayTokens = 0\<close>.
\<close>

theorem loadMetrics_today_counters_witness:
  "todayMessages (loadMetrics (ex_env ex_now [ex_day ''2024-01-09'' 7, ex_day ''2024-01-10'' 42]
      [ex_day_tokens ''2024-01-09'' 1000])) = 42
   \<and> todayTokens (loadMetrics (ex_env ex_now [ex_day ''2024-01-09'' 7, ex_day ''2024-01-10'' 42]
      [ex_day_tokens ''2024-01-09'' 1000])) = 0"
proof -
  let ?acts = "[ex_day ''2024-01-09'' 7, ex_day ''2024-01-10'' 42]"
  let ?toks = "[ex_day_tokens ''2024-01-09'' 1000]"
  let ?env = "ex_env ex_now ?acts ?toks"
  have t: "''2024-01-10'' = isoDateString (clock ?env)"
    by (simp add: ex_env_def ex_now_dates)
  have th: "(\<forall>pre a post. ?acts = pre @ a # post \<and> date a = ''2024-01-10''
                \<and> (\<forall>b\<in>set pre. date b \<noteq> ''2024-01-10'')
            \<longrightarrow> todayMessages (loadMetrics ?env) = orZero (messageCount a)
              \<and> todaySessions (loadMetrics ?env) = orZero (sessionCount a)
              \<and> todayToolCalls (loadMetrics ?env) = orZero (toolCallCount a))
       \<and> ((\<forall>b\<in>set ?acts. date b \<noteq> ''2024-01-10'')
            \<longrightarrow> todayMessages (loadMetrics ?env) = 0 \<and> todaySessions (loadMetrics ?env) = 0
              \<and> todayToolCalls (loadMetrics ?env) = 0)
       \<and> (\<forall>pre e post. ?toks = pre @ e # post \<and> date e = ''2024-01-10''
                \<and> (\<forall>b\<in>set pre. date b \<noteq> ''2024-01-10'')
            \<longrightarrow> todayTokens (loadMetrics ?env) = sum_list (objectValues (tokensByModel e)))
       \<and> ((\<forall>b\<in>set ?toks. date b \<noteq> ''2024-01-10'') \<longrightarrow> todayTokens (loadMetrics ?env) = 0)"
    by (rule loadMetrics_today_counters [of ?env "ex_stats ?acts ?toks" ?acts ?toks, OF _ _ _ _ t])
       (simp_all add: ex_env_def ex_stats_def)
  from th have a: "?acts = [ex_day ''2024-01-09'' 7] @ ex_day ''2024-01-10'' 42 # []
       \<and> date (ex_day ''2024-01-10'' 42) = ''2024-01-10''
       \<and> (\<forall>b\<in>set [ex_day ''2024-01-09'' 7]. date b \<noteq> ''2024-01-10'')
     \<longrightarrow> todayMessages (loadMetrics ?env) = orZero (messageCount (ex_day ''2024-01-10'' 42))"
    by blast
  have m: "todayMessages (loadMetrics ?env) = 42"
    using a by (simp add: ex_day_def orZero_def)
  from th have b: "(\<forall>b\<in>set ?toks. date b \<noteq> ''2024-01-10'') \<longrightarrow> todayTokens (loadMetrics ?env) = 0"
    by blast
  have k: "todayTokens (loadMetrics ?env) = 0"
    using b by (simp add: ex_day_tokens_def)
  show ?thesis using m k by simp
qed

text \<open>
  Claim C5 as stated fails: at 00:30 UTC on 2024-01-11 a clock five hours behind UTC
  shows 2024-01-10; an entry dated 2024-01-10 with 42 messages is not found, and
  \<open>todayMessages\<close> is 0.
\<close>

theorem loadMetrics_local_date_counterexample:
  "localDateString ex_late (- 300) = ''2024-01-10''
   \<and> isoDateString ex_late = ''2024-01-11''
   \<and> todayMessages (loadMetrics (ex_env ex_late [ex_day ''2024-01-10'' 42] [])) = 0"
  by code_simp

subsection \<open>The refresh orchestrator\<close>




































subsection \<open>The change notifier\<close>

lemma changesAt_timer [simp]: "changesAt (fw\<lparr> debounceTimer := d \<rparr>) ts = changesAt fw ts"
  by (simp add: changesAt_def)

lemma fw_step_change:
  assumes "watcher fw" and "case debounceTimer fw of None \<Rightarrow> True | Some d \<Rightarrow> t < d"
  shows "fw_step (t, FsEvent (Some (basename (filePath fw)))) fw
           = fw\<lparr> debounceTimer := Some (t + debounceMs) \<rparr>"
  using assms
  by (simp add: fw_step_def elapse_def onWatchEvent_def handleFileChange_def Let_def
      split: option.splits)

lemma fw_run_burst:
  assumes "watcher fw" and "ts \<noteq> []" and "burst ts"
    and "case debounceTimer fw of None \<Rightarrow> True | Some d \<Rightarrow> hd ts < d"
  shows "fw_run (changesAt fw ts) fw = fw\<lparr> debounceTimer := Some (last ts + debounceMs) \<rparr>"
  using assms
proof (induction ts arbitrary: fw rule: burst.induct)
  case 1
  then show ?case by simp
next
  case (2 t)
  then show ?case
    using fw_step_change [of fw t]
    by (cases "debounceTimer fw") (simp_all add: fw_run_def changesAt_def)
next
  case (3 t u ts)
  let ?fw1 = "fw\<lparr> debounceTimer := Some (t + debounceMs) \<rparr>"
  have st: "fw_step (t, FsEvent (Some (basename (filePath fw)))) fw = ?fw1"
    using fw_step_change [of fw t] "3.prems" by (cases "debounceTimer fw") simp_all
  have ih: "fw_run (changesAt ?fw1 (u # ts)) ?fw1 = ?fw1\<lparr> debounceTimer := Some (last (u # ts) + debounceMs) \<rparr>"
    using "3.prems" by (intro "3.IH") simp_all
  have "fw_run (changesAt fw (t # u # ts)) fw = fw_run (changesAt fw (u # ts)) ?fw1"
    using st by (simp add: fw_run_def changesAt_def)
  then show ?case using ih by simp
qed

lemma fw_step_stopped:
  assumes "\<not> watcher fw" and "debounceTimer fw = None" and "\<not> isStart inp"
  shows "\<not> watcher (fw_step inp fw) \<and> debounceTimer (fw_step inp fw) = None
       \<and> fired (fw_step inp fw) = fired fw"
proof -
  obtain t i where inp: "inp = (t, i)" by (cases inp)
  show ?thesis using assms
    by (cases i)
       (simp_all add: inp fw_step_def elapse_def onWatchEvent_def fw_stop_def fw_dispose_def Let_def)
qed

lemma fw_run_stopped:
  assumes "\<not> watcher fw" and "debounceTimer fw = None" and "\<forall>i\<in>set inputs. \<not> isStart i"
  shows "\<not> watcher (fw_run inputs fw) \<and> debounceTimer (fw_run inputs fw) = None
       \<and> fired (fw_run inputs fw) = fired fw"
  using assms
proof (induction inputs arbitrary: fw)
  case Nil
  then show ?case by (simp add: fw_run_def)
next
  case (Cons i inputs)
  have s: "\<not> watcher (fw_step i fw) \<and> debounceTimer (fw_step i fw) = None
       \<and> fired (fw_step i fw) = fired fw"
    using fw_step_stopped [of fw i] Cons.prems by simp
  have "\<not> watcher (fw_run inputs (fw_step i fw)) \<and> debounceTimer (fw_run inputs (fw_step i fw)) = None
       \<and> fired (fw_run inputs (fw_step i fw)) = fired (fw_step i fw)"
    using s Cons.prems by (intro Cons.IH) simp_all
  then show ?case using s by (simp add: fw_run_def)
qed

text \<open>
  Claim C8. Let the watcher be watching with no timeout pending, and let one or more
  change events for the watched file arrive at instants \<open>ts\<close>, each less than
  \<open>debounceMs\<close> (500 ms) after the one before. Up to \<open>debounceMs\<close> after the last event no
  signal has been fired; from then on exactly one has been, at that instant, and no
  timeout is pending. After \<open>stop()\<close> on any watcher no timeout is pending, and whatever
  events arrive later (short of a new \<open>start()\<close>), no signal is fired any more.
\<close>

theorem debounce_single_signal:
  assumes "watcher fw" and "debounceTimer fw = None" and "ts \<noteq> []" and "burst ts"
  shows "(\<forall>T. T < last ts + debounceMs \<longrightarrow>
            fired (elapse T (fw_run (changesAt fw ts) fw)) = fired fw)
       \<and> (\<forall>T. last ts + debounceMs \<le> T \<longrightarrow>
            fired (elapse T (fw_run (changesAt fw ts) fw)) = fired fw @ [last ts + debounceMs]
            \<and> debounceTimer (elapse T (fw_run (changesAt fw ts) fw)) = None)
       \<and> (\<forall>w inputs T. (\<forall>i\<in>set inputs. \<not> isStart i) \<longrightarrow>
            debounceTimer (fw_stop w) = None
            \<and> fired (elapse T (fw_run inputs (fw_stop w))) = fired w)"
proof -
  have run: "fw_run (changesAt fw ts) fw = fw\<lparr> debounceTimer := Some (last ts + debounceMs) \<rparr>"
    using assms by (intro fw_run_burst) simp_all
  have a: "\<And>T. T < last ts + debounceMs \<Longrightarrow>
            fired (elapse T (fw_run (changesAt fw ts) fw)) = fired fw"
    by (simp add: run elapse_def)
  have b: "\<And>T. last ts + debounceMs \<le> T \<Longrightarrow>
            fired (elapse T (fw_run (changesAt fw ts) fw)) = fired fw @ [last ts + debounceMs]
            \<and> debounceTimer (elapse T (fw_run (changesAt fw ts) fw)) = None"
    by (simp add: run elapse_def onDebounceTimeout_def)
  have c: "\<And>w inputs T. \<forall>i\<in>set inputs. \<not> isStart i \<Longrightarrow>
            debounceTimer (fw_stop w) = None
            \<and> fired (elapse T (fw_run inputs (fw_stop w))) = fired w"
  proof -
    fix w :: FileWatcher and inputs :: "(int \<times> fw_input) list" and T :: int
    assume h: "\<forall>i\<in>set inputs. \<not> isStart i"
    have "\<not> watcher (fw_run inputs (fw_stop w)) \<and> debounceTimer (fw_run inputs (fw_stop w)) = None
       \<and> fired (fw_run inputs (fw_stop w)) = fired (fw_stop w)"
      using h by (intro fw_run_stopped) (simp_all add: fw_stop_def)
    then show "debounceTimer (fw_stop w) = None
            \<and> fired (elapse T (fw_run inputs (fw_stop w))) = fired w"
      by (simp add: elapse_def fw_stop_def)
  qed
  show ?thesis using a b c by blast
qed

lemma ex_watcher_eq:
  "ex_watcher = \<lparr> filePath = ''/home/u/.claude/stats-cache.json'', watcher = True,
       debounceTimer = None, isWatching = True, fired = [], emitterDisposed = False \<rparr>"
  by (simp add: ex_watcher_def fw_start_def newFileWatcher_def ex_watch_env_def)

theorem debounce_single_signal_witness:
  "fired (elapse 1899 (fw_run (changesAt ex_watcher [1000, 1100, 1400]) ex_watcher)) = []
   \<and> fired (elapse 2000 (fw_run (changesAt ex_watcher [1000, 1100, 1400]) ex_watcher)) = [1900]
   \<and> fired (elapse 5000 (fw_run [(1500, FsEvent (Some ''stats-cache.json''))]
        (fw_stop (fw_run (changesAt ex_watcher [1000, 1100, 1400]) ex_watcher)))) = []"
proof -
  have h: "watcher ex_watcher" "debounceTimer ex_watcher = None" "[1000, 1100, 1400] \<noteq> ([] :: int list)"
    "burst [1000, 1100, 1400]"
    by (simp_all add: ex_watcher_eq debounceMs_def)
  have n: "\<forall>i\<in>set [(1500 :: int, FsEvent (Some ''stats-cache.json''))]. \<not> isStart i"
    by simp
  have r: "fw_run (changesAt ex_watcher [1000, 1100, 1400]) ex_watcher
      = ex_watcher\<lparr> debounceTimer := Some 1900 \<rparr>"
    using fw_run_burst [of ex_watcher "[1000, 1100, 1400]"] h by (simp add: debounceMs_def)
  have f: "fired ex_watcher = []" by (simp add: ex_watcher_eq)
  from debounce_single_signal [OF h] have
    a: "(1899 :: int) < last [1000, 1100, 1400] + debounceMs \<longrightarrow>
          fired (elapse 1899 (fw_run (changesAt ex_watcher [1000, 1100, 1400]) ex_watcher)) = fired ex_watcher"
    and b: "last [1000, 1100, 1400] + debounceMs \<le> (2000 :: int) \<longrightarrow>
          fired (elapse 2000 (fw_run (changesAt ex_watcher [1000, 1100, 1400]) ex_watcher))
            = fired ex_watcher @ [last [1000, 1100, 1400] + debounceMs]
          \<and> debounceTimer (elapse 2000 (fw_run (changesAt ex_watcher [1000, 1100, 1400]) ex_watcher)) = None"
    and c: "(\<forall>i\<in>set [(1500 :: int, FsEvent (Some ''stats-cache.json''))]. \<not> isStart i) \<longrightarrow>
          debounceTimer (fw_stop (fw_run (changesAt ex_watcher [1000, 1100, 1400]) ex_watcher)) = None
          \<and> fired (elapse 5000 (fw_run [(1500, FsEvent (Some ''stats-cache.json''))]
                (fw_stop (fw_run (changesAt ex_watcher [1000, 1100, 1400]) ex_watcher))))
              = fired (fw_run (changesAt ex_watcher [1000, 1100, 1400]) ex_watcher)"
    by blast+
  show ?thesis using a b c n by (simp add: f debounceMs_def r)
qed

subsection \<open>The remote quota source\<close>

























end
